theory Spec2Isabelle
  imports Complex_Main
begin

section \<open>Errors raised by the benchmark code\<close>

text \<open>
  The Python exceptions the modelled functions can raise.  \<open>ValueError\<close> is what the
  design document calls the \<open>InvalidParameter\<close> condition.
\<close>

datatype error = ValueError | AttributeError | TypeError | OverflowError

section \<open>Trend estimator (\<open>bench/ema.py\<close>)\<close>

text \<open>
  Python floats are modelled by the real numbers they denote; rounding is not modelled.
  \<^verbatim>\<open>
  def alpha_from_half_life(half_life: float) -> float:
      if half_life <= 0:
          raise ValueError("half_life must be > 0")
      return 1.0 - math.pow(2.0, -1.0 / half_life)
  \<close>
\<close>

definition alpha_from_half_life :: "real \<Rightarrow> error + real" where
  "alpha_from_half_life half_life =
     (if half_life \<le> 0 then Inl ValueError
      else Inr (1 - 2 powr (- 1 / half_life)))"

text \<open>
  The same function with the rounding of double arithmetic made explicit.  \<open>fl_pow x\<close> is
  the double the code holds after \<^verbatim>\<open>math.pow(2.0, -1.0 / half_life)\<close> when the exact power
  is \<open>x\<close> (it stands for the rounding of the quotient and of the power), and \<open>fl_sub r\<close> is
  the double the subtraction from \<open>1.0\<close> returns when the exact difference is \<open>r\<close>.  With
  the identity for both, the function is \<open>alpha_from_half_life\<close>.
\<close>

definition alpha_from_half_life_fl ::
  "(real \<Rightarrow> real) \<Rightarrow> (real \<Rightarrow> real) \<Rightarrow> real \<Rightarrow> error + real" where
  "alpha_from_half_life_fl fl_pow fl_sub half_life =
     (if half_life \<le> 0 then Inl ValueError
      else Inr (fl_sub (1 - fl_pow (2 powr (- 1 / half_life)))))"

text \<open>
  A monotone rounding for worked examples: down to the next multiple of \<open>2 ^ - 53\<close>, the
  spacing of the doubles just below \<open>1\<close>.
\<close>

definition round_to_grid :: "real \<Rightarrow> real" where
  "round_to_grid r = real_of_int \<lfloor>r * 2 ^ 53\<rfloor> / 2 ^ 53"

text \<open>
  \<^verbatim>\<open>
  @dataclass
  class EMAScore:
      alpha: float
      value: Optional[float] = None

      def update(self, x: float) -> float:
          if self.value is None:
              self.value = float(x)
          else:
              self.value = self.alpha * float(x) + (1.0 - self.alpha) * self.value
          return float(self.value)
  \<close>
  The field \<open>value\<close> is called \<open>current_value\<close> here, the name the design document
  uses.  \<open>update\<close> returns the new state
  together with the value the method returns.
\<close>

record EMAScore =
  alpha :: real
  current_value :: "real option"

definition update :: "EMAScore \<Rightarrow> real \<Rightarrow> EMAScore \<times> real" where
  "update e x =
     (let v = (case current_value e of
                 None \<Rightarrow> x
               | Some old \<Rightarrow> alpha e * x + (1 - alpha e) * old)
      in (e\<lparr>current_value := Some v\<rparr>, v))"

text \<open>
  A run of the estimator: the inputs are fed to \<open>update\<close> one after the other; the result
  is the final state and the list of the values returned, in order.
\<close>

fun updates :: "EMAScore \<Rightarrow> real list \<Rightarrow> EMAScore \<times> real list" where
  "updates e [] = (e, [])"
| "updates e (x # xs) =
     (let (e1, v) = update e x; (e2, vs) = updates e1 xs in (e2, v # vs))"

text \<open>
  The weighted sum as the design document words it: every one of the \<open>n + 1\<close> inputs,
  the one from \<open>k\<close> steps ago with weight \<open>factor * (1 - factor) ^ k\<close>.
\<close>

definition spec_weighted_sum :: "real \<Rightarrow> real list \<Rightarrow> real" where
  "spec_weighted_sum factor xs =
     (\<Sum>k<length xs. factor * (1 - factor) ^ k * xs ! (length xs - 1 - k))"

text \<open>
  The weighted sum the recurrence of \<open>update\<close> produces: the first input, which
  initialises the estimator, keeps the whole remaining weight \<open>(1 - factor) ^ n\<close>.
\<close>

definition ema_closed_form :: "real \<Rightarrow> real list \<Rightarrow> real" where
  "ema_closed_form factor xs =
     (\<Sum>k<length xs - 1. factor * (1 - factor) ^ k * xs ! (length xs - 1 - k))
       + (1 - factor) ^ (length xs - 1) * xs ! 0"

section \<open>Curriculum policy (\<open>bench/evolve.py\<close>)\<close>

subsection \<open>Python library operations used by the policy\<close>

text \<open>
  The slice \<^verbatim>\<open>xs[-n:]\<close> for an integer \<open>n\<close>.  For \<open>n > 0\<close> it is the last \<open>n\<close> elements
  (all of them when the list is shorter).  For \<open>n = 0\<close> the start index \<open>-0\<close> is \<open>0\<close>, so
  the slice is the whole list, and for \<open>n < 0\<close> the start index \<open>-n\<close> is positive and the
  slice drops the first \<open>-n\<close> elements.
\<close>

definition py_last_n :: "int \<Rightarrow> 'a list \<Rightarrow> 'a list" where
  "py_last_n n xs =
     (if 0 < n then drop (length xs - nat n) xs else drop (nat (- n)) xs)"

text \<open>
  \<^verbatim>\<open>collections.Counter(xs)\<close>: a dictionary from element to multiplicity.  A Python
  dictionary iterates in insertion order, so it is modelled by an association list in
  which a new element is appended at the end and a known element is counted in place.
\<close>

fun counter_add :: "'a \<Rightarrow> ('a \<times> nat) list \<Rightarrow> ('a \<times> nat) list" where
  "counter_add x [] = [(x, 1)]"
| "counter_add x ((y, c) # ys) =
     (if x = y then (y, c + 1) # ys else (y, c) # counter_add x ys)"

definition Counter :: "'a list \<Rightarrow> ('a \<times> nat) list" where
  "Counter xs = fold counter_add xs []"

text \<open>
  \<^verbatim>\<open>Counter.most_common(n)\<close> for an integer \<open>n\<close> is
  \<^verbatim>\<open>heapq.nlargest(n, self.items(), key=itemgetter(1))\<close>, which the Python library
  documents as \<^verbatim>\<open>sorted(iterable, key=key, reverse=True)[:n]\<close>; that sort is stable, so
  elements with equal counts keep the order in which they were first encountered, and
  \<open>n \<le> 0\<close> gives the empty list.  \<open>sort_key\<close> is the stable insertion sort of the list
  library; sorting by the negated count sorts by the count, descending.
\<close>

definition most_common :: "int \<Rightarrow> ('a \<times> nat) list \<Rightarrow> ('a \<times> nat) list" where
  "most_common n cs = take (nat n) (sort_key (\<lambda>tc. - int (snd tc)) cs)"

subsection \<open>The policy\<close>

text \<open>
  \<^verbatim>\<open>
  @dataclass
  class EvolutionPolicy:
      window: int = 30
      focus_top_k_tags: int = 3
      difficulty_min: int = 1
      difficulty_max: int = 5
  \<close>
\<close>

record EvolutionPolicy =
  window :: int
  focus_top_k_tags :: int
  difficulty_min :: int
  difficulty_max :: int

definition default_policy :: EvolutionPolicy where
  "default_policy =
     \<lparr>window = 30, focus_top_k_tags = 3, difficulty_min = 1, difficulty_max = 5\<rparr>"

text \<open>
  An evaluation record of the history, as \<open>next_focus\<close> reads it: the entries
  \<open>error_tags\<close> (a list of tags) and \<open>subscores\<close> (a dictionary from dimension to a
  float).  \<open>None\<close> stands for a missing key and for a value that is false in Python
  (\<open>None\<close>, an empty list or dictionary): \<^verbatim>\<open>e.get(key, default) or default\<close> reads the
  default in all these cases.  The records of the history are the ones \<open>evaluate\<close>
  produced and the store returned: the tags are a list, of strings as in the data model
  of the design document, and every subscore is a float, so that the
  \<^verbatim>\<open>except\<close> branch around \<^verbatim>\<open>float(v)\<close> is never taken.
\<close>

record eval_record =
  error_tags :: "string list option"
  subscores :: "(string \<times> real) list option"

definition tags_of :: "eval_record \<Rightarrow> string list" where
  "tags_of e = (case error_tags e of None \<Rightarrow> [] | Some ts \<Rightarrow> ts)"

text \<open>
  The inner loop over \<^verbatim>\<open>subs.items()\<close>: the dimensions of one record whose value is
  below \<open>0.6\<close>, the safety dimension excepted, in the dictionary's order.
\<close>

definition low_subskills_of :: "eval_record \<Rightarrow> string list" where
  "low_subskills_of e =
     map fst (filter (\<lambda>kv. snd kv < 6 / 10 \<and> fst kv \<noteq> ''safety'')
                (case subscores e of None \<Rightarrow> [] | Some subs \<Rightarrow> subs))"

definition skill_map :: "string \<Rightarrow> string option" where
  "skill_map s =
     (if s = ''correctness'' then Some ''structured reasoning''
      else if s = ''completeness'' then Some ''constraint following''
      else if s = ''reasoning_quality'' then Some ''structured reasoning''
      else if s = ''format_compliance'' then Some ''constraint following''
      else if s = ''safety'' then Some ''robustness / uncertainty''
      else None)"

text \<open>
  \<^verbatim>\<open>
  def next_focus(self, eval_history):
      recent = eval_history[-self.window:] if eval_history else []
      tags = []
      low_subskills = []
      for e in recent:
          tags.extend(e.get("error_tags", []) or [])
          subs = (e.get("subscores", {}) or {})
          for k, v in subs.items():
              try:
                  if float(v) < 0.6 and k != "safety":
                      low_subskills.append(k)
              except Exception:
                  continue
      tag_counts = Counter(tags)
      top_tags = [t for t, _ in tag_counts.most_common(self.focus_top_k_tags)]
      sub_counts = Counter(low_subskills)
      top_subs = [s for s, _ in sub_counts.most_common(3)]
      skill_map = {...}
      focus_skills = []
      for s in top_subs:
          focus_skills.append(skill_map.get(s, s))
      if not focus_skills:
          focus_skills = ["mixed reasoning and analysis"]
      return focus_skills, top_tags
  \<close>
\<close>

definition recent_records :: "EvolutionPolicy \<Rightarrow> eval_record list \<Rightarrow> eval_record list" where
  "recent_records p eval_history =
     (if eval_history \<noteq> [] then py_last_n (window p) eval_history else [])"

definition next_focus :: "EvolutionPolicy \<Rightarrow> eval_record list \<Rightarrow> string list \<times> string list" where
  "next_focus p eval_history =
     (let recent = recent_records p eval_history;
          tags = concat (map tags_of recent);
          low_subskills = concat (map low_subskills_of recent);
          tag_counts = Counter tags;
          top_tags = map fst (most_common (focus_top_k_tags p) tag_counts);
          sub_counts = Counter low_subskills;
          top_subs = map fst (most_common 3 sub_counts);
          focus_skills =
            map (\<lambda>s. case skill_map s of None \<Rightarrow> s | Some l \<Rightarrow> l) top_subs
      in (if focus_skills = [] then [''mixed reasoning and analysis''] else focus_skills,
          top_tags))"

text \<open>
  \<^verbatim>\<open>
  def adjust_difficulty(self, current: int, ema_value: float) -> int:
      nxt = current
      if ema_value >= 0.82:
          nxt += 1
      elif ema_value <= 0.62:
          nxt -= 1
      return max(self.difficulty_min, min(self.difficulty_max, nxt))
  \<close>
\<close>

definition adjust_difficulty :: "EvolutionPolicy \<Rightarrow> int \<Rightarrow> real \<Rightarrow> int" where
  "adjust_difficulty p current ema_value =
     (let nxt = (if ema_value \<ge> 82 / 100 then current + 1
                 else if ema_value \<le> 62 / 100 then current - 1
                 else current)
      in max (difficulty_min p) (min (difficulty_max p) nxt))"

text \<open>
  Consecutive adjustments, as the main loop applies them: one per iteration, each from
  the difficulty the previous one returned.
\<close>

fun adjust_many :: "EvolutionPolicy \<Rightarrow> int \<Rightarrow> real list \<Rightarrow> int" where
  "adjust_many p current [] = current"
| "adjust_many p current (v # vs) = adjust_many p (adjust_difficulty p current v) vs"

subsection \<open>The ranking of tags in the words of the design document\<close>

text \<open>
  The position at which a tag is first seen, the strict order "more frequent, or equally
  frequent and first seen earlier", and the most recent \<open>w\<close> records of a history
  (fewer if the history is shorter).
\<close>

definition first_index :: "'a list \<Rightarrow> 'a \<Rightarrow> nat" where
  "first_index xs x = length (takeWhile (\<lambda>y. y \<noteq> x) xs)"

definition ranks_before :: "'a list \<Rightarrow> 'a \<Rightarrow> 'a \<Rightarrow> bool" where
  "ranks_before xs a b =
     (count_list xs b < count_list xs a \<or>
      (count_list xs a = count_list xs b \<and> first_index xs a < first_index xs b))"

definition most_recent :: "nat \<Rightarrow> 'a list \<Rightarrow> 'a list" where
  "most_recent w xs = drop (length xs - w) xs"

definition window_tags :: "nat \<Rightarrow> eval_record list \<Rightarrow> string list" where
  "window_tags w eval_history = concat (map tags_of (most_recent w eval_history))"

section \<open>Similarity index and question generation (\<open>bench/generate.py\<close>)\<close>

subsection \<open>Text normalisation and fingerprints\<close>

text \<open>
  A character of a text is a code point below 256, the range a \<open>char\<close> holds.
  \<open>is_space\<close> is the white space of Python's \<^verbatim>\<open>\s\<close> and \<^verbatim>\<open>str.strip()\<close> in that range:
  tab, line feed, vertical tab, form feed, carriage return, the four separators 28 to
  31, the space, the next-line control 133 and the no-break space 160.  \<open>is_word\<close> is
  \<^verbatim>\<open>\w\<close> there: the ASCII letters, digits and underscore, and the letters and numeric
  characters of the upper half (which leaves out, among others, the multiplication sign
  215 and the division sign 247).  \<open>lower_char\<close> is \<^verbatim>\<open>str.lower()\<close>: the capitals
  \<open>A\<close> to \<open>Z\<close> and the accented capitals 192 to 222, except 215, move up by 32.
\<close>

definition is_space :: "char \<Rightarrow> bool" where
  "is_space c =
     (let n = (of_char c :: nat)
      in (9 \<le> n \<and> n \<le> 13) \<or> (28 \<le> n \<and> n \<le> 32) \<or> n = 133 \<or> n = 160)"

definition is_word :: "char \<Rightarrow> bool" where
  "is_word c =
     (let n = (of_char c :: nat)
      in (48 \<le> n \<and> n \<le> 57) \<or> (65 \<le> n \<and> n \<le> 90) \<or> n = 95 \<or> (97 \<le> n \<and> n \<le> 122)
         \<or> n = 170 \<or> n = 178 \<or> n = 179 \<or> n = 181 \<or> n = 185 \<or> n = 186
         \<or> (188 \<le> n \<and> n \<le> 190) \<or> (192 \<le> n \<and> n \<le> 214) \<or> (216 \<le> n \<and> n \<le> 246)
         \<or> 248 \<le> n)"

definition lower_char :: "char \<Rightarrow> char" where
  "lower_char c =
     (let n = (of_char c :: nat)
      in if (65 \<le> n \<and> n \<le> 90) \<or> (192 \<le> n \<and> n \<le> 214) \<or> (216 \<le> n \<and> n \<le> 222)
         then char_of (n + 32) else c)"

text \<open>\<^verbatim>\<open>re.sub(r"\s+", " ", s)\<close>: every maximal run of white space becomes one space.
  The flag says whether the previous character was white space.\<close>

fun collapse_ws :: "bool \<Rightarrow> string \<Rightarrow> string" where
  "collapse_ws in_run [] = []"
| "collapse_ws in_run (c # cs) =
     (if is_space c then (if in_run then collapse_ws True cs else CHR '' '' # collapse_ws True cs)
      else c # collapse_ws False cs)"

definition strip :: "string \<Rightarrow> string" where
  "strip s = rev (dropWhile is_space (rev (dropWhile is_space s)))"

text \<open>The characters the second substitution keeps:
  \<^verbatim>\<open>[^\w\s\.\,\?\!\:\;\-\(\)\[\]\/]\<close> is removed.\<close>

definition is_kept :: "char \<Rightarrow> bool" where
  "is_kept c = (is_word c \<or> is_space c \<or> c \<in> set ''.,?!:;-()[]/'')"

text \<open>
  \<^verbatim>\<open>
  def normalize_text(s: str) -> str:
      s = s.lower()
      s = re.sub(r"\s+", " ", s).strip()
      s = re.sub(r"[^\w\s\.\,\?\!\:\;\-\(\)\[\]\/]", "", s)
      return s

  def text_hash(s: str) -> str:
      return hashlib.sha256(normalize_text(s).encode("utf-8")).hexdigest()
  \<close>
  The digest \<^verbatim>\<open>hashlib.sha256(...).hexdigest()\<close> is a parameter \<open>sha\<close> of the model.
\<close>

definition normalize_text :: "string \<Rightarrow> string" where
  "normalize_text s = filter is_kept (strip (collapse_ws False (map lower_char s)))"

definition text_hash :: "(string \<Rightarrow> 'h) \<Rightarrow> string \<Rightarrow> 'h" where
  "text_hash sha s = sha (normalize_text s)"

subsection \<open>The novelty filter\<close>

text \<open>
  \<^verbatim>\<open>
  @dataclass
  class NoveltyFilter:
      max_sim: float = 0.88
      max_history: int = 5000

      def __post_init__(self) -> None:
          self._hashes: set[str] = set()
          self._texts: list[str] = []
  \<close>
\<close>

record 'h NoveltyFilter =
  max_sim :: real
  max_history :: int
  hashes :: "'h set"
  texts :: "string list"

definition new_filter :: "real \<Rightarrow> int \<Rightarrow> 'h NoveltyFilter" where
  "new_filter ms mh = \<lparr>max_sim = ms, max_history = mh, hashes = {}, texts = []\<rparr>"

text \<open>
  \<^verbatim>\<open>
  def add(self, question: str) -> None:
      h = text_hash(question)
      self._hashes.add(h)
      self._texts.append(question)
      if len(self._texts) > self.max_history:
          # drop oldest
          old = self._texts.pop(0)
          self._hashes.discard(text_hash(old))
  \<close>
  The list is not empty after the append, so \<open>hd\<close> and \<open>tl\<close> are \<^verbatim>\<open>pop(0)\<close>.
\<close>

definition add :: "(string \<Rightarrow> 'h) \<Rightarrow> 'h NoveltyFilter \<Rightarrow> string \<Rightarrow> 'h NoveltyFilter" where
  "add sha nf question =
     (let h = text_hash sha question;
          hs = insert h (hashes nf);
          ts = texts nf @ [question]
      in if int (length ts) > max_history nf
         then (let old = hd ts in nf\<lparr>hashes := hs - {text_hash sha old}, texts := tl ts\<rparr>)
         else nf\<lparr>hashes := hs, texts := ts\<rparr>)"

text \<open>
  \<^verbatim>\<open>
  def seed(self, previous_questions: List[str]) -> None:
      for q in previous_questions[-self.max_history:]:
          self.add(q)
  \<close>
\<close>

definition seed :: "(string \<Rightarrow> 'h) \<Rightarrow> 'h NoveltyFilter \<Rightarrow> string list \<Rightarrow> 'h NoveltyFilter" where
  "seed sha nf previous_questions =
     fold (\<lambda>q f. add sha f q) (py_last_n (max_history nf) previous_questions) nf"

text \<open>
  The dictionary \<open>is_novel\<close> returns beside its verdict.  Its key \<^verbatim>\<open>max_sim\<close> is the field
  \<open>info_max_sim\<close> (the filter has a field \<open>max_sim\<close> of its own).
\<close>

record info =
  hash_dup :: bool
  info_max_sim :: real
  sim_to_index :: "nat option"

text \<open>\<^verbatim>\<open>np.max\<close> and \<^verbatim>\<open>np.argmax\<close> (the first position of the maximum) of a
  non-empty array.\<close>

definition np_max :: "real list \<Rightarrow> real" where
  "np_max xs = fold max (tl xs) (hd xs)"

definition np_argmax :: "real list \<Rightarrow> nat" where
  "np_argmax xs = length (takeWhile (\<lambda>x. x \<noteq> np_max xs) xs)"

text \<open>
  \<^verbatim>\<open>
  def is_novel(self, question: str) -> Tuple[bool, Dict[str, Any]]:
      h = text_hash(question)
      if h in self._hashes:
          return False, {"hash_dup": True, "max_sim": 1.0, "sim_to_index": None}
      if not self._texts:
          return True, {"hash_dup": False, "max_sim": 0.0, "sim_to_index": None}
      corpus = self._texts + [question]
      vec = TfidfVectorizer(ngram_range=(1, 2), min_df=1).fit_transform(corpus)
      sims = cosine_similarity(vec[-1], vec[:-1]).flatten()
      max_sim = float(np.max(sims)) if sims.size else 0.0
      idx = int(np.argmax(sims)) if sims.size else None
      if max_sim >= self.max_sim:
          return False, {"hash_dup": False, "max_sim": max_sim, "sim_to_index": idx}
      return True, {"hash_dup": False, "max_sim": max_sim, "sim_to_index": idx}
  \<close>
  The TF-IDF vectoriser and the cosine similarity of scikit-learn are a parameter
  \<open>tfidf_sims\<close>: from the history and the candidate to the similarities of the candidate
  to each entry of the history, or to the \<open>ValueError\<close> the vectoriser raises when no text
  of the corpus has a token.
\<close>

definition is_novel ::
  "(string \<Rightarrow> 'h) \<Rightarrow> (string list \<Rightarrow> string \<Rightarrow> error + real list) \<Rightarrow>
   'h NoveltyFilter \<Rightarrow> string \<Rightarrow> error + (bool \<times> info)" where
  "is_novel sha tfidf_sims nf question =
     (let h = text_hash sha question
      in if h \<in> hashes nf
         then Inr (False, \<lparr>hash_dup = True, info_max_sim = 1, sim_to_index = None\<rparr>)
         else if texts nf = []
         then Inr (True, \<lparr>hash_dup = False, info_max_sim = 0, sim_to_index = None\<rparr>)
         else (case tfidf_sims (texts nf) question of
                 Inl e \<Rightarrow> Inl e
               | Inr sims \<Rightarrow>
                   (let m = (if sims \<noteq> [] then np_max sims else 0);
                        idx = (if sims \<noteq> [] then Some (np_argmax sims) else None)
                    in if m \<ge> max_sim nf
                       then Inr (False, \<lparr>hash_dup = False, info_max_sim = m, sim_to_index = idx\<rparr>)
                       else Inr (True, \<lparr>hash_dup = False, info_max_sim = m, sim_to_index = idx\<rparr>))))"

subsection \<open>Generation with regeneration attempts\<close>

text \<open>
  The question object \<open>QuestionGenerator.generate\<close> returns; it always has the key
  \<^verbatim>\<open>question\<close>.  The field \<open>question\<close> is \<^verbatim>\<open>str(qobj.get("question", ""))\<close>.  The
  generator asks a language model, so its answers are a parameter \<open>gen\<close> of the model:
  \<open>gen k\<close> is what the call number \<open>k\<close> of an iteration returns (the arguments of all the
  calls of one iteration are the same).
\<close>

record qobj =
  question :: string
  topic :: string
  difficulty :: int
  skills :: "string list"

text \<open>
  The novelty information \<open>generate_novel_question\<close> returns: the dictionary of the last
  \<open>is_novel\<close> call (\<open>None\<close> when there was no call), and whether the key \<^verbatim>\<open>forced\<close> is in it
  (it is only ever set to \<^verbatim>\<open>True\<close>).
\<close>

record novelty_info =
  forced :: bool
  last_info :: "info option"

text \<open>
  \<^verbatim>\<open>
  def generate_novel_question(gen, novelty, *, topic, difficulty, focus_skills,
                              avoid_recent, max_regen: int = 6):
      last_info: Dict[str, Any] = {}
      for _ in range(max_regen):
          qobj = gen.generate(topic=topic, difficulty=difficulty,
                              focus_skills=focus_skills, avoid_recent=avoid_recent)
          qtext = str(qobj.get("question", "")).strip()
          ok, info = novelty.is_novel(qtext)
          last_info = info
          if ok:
              novelty.add(qtext)
              return qobj, info
      # if still not novel, return the last and mark it
      qobj = gen.generate(topic=topic, difficulty=difficulty,
                          focus_skills=focus_skills, avoid_recent=avoid_recent)
      return qobj, {"forced": True, **last_info}
  \<close>
  \<open>regen_loop\<close> is the \<^verbatim>\<open>for\<close> loop with \<open>n\<close> rounds left, \<open>k\<close> calls of the generator made
  so far and the current \<^verbatim>\<open>last_info\<close> (\<open>linfo\<close>), followed by the two lines after the loop.  The
  result is the returned pair together with the filter as the call leaves it.
\<close>

fun regen_loop ::
  "(string \<Rightarrow> 'h) \<Rightarrow> (string list \<Rightarrow> string \<Rightarrow> error + real list) \<Rightarrow> (nat \<Rightarrow> qobj) \<Rightarrow>
   'h NoveltyFilter \<Rightarrow> nat \<Rightarrow> nat \<Rightarrow> info option \<Rightarrow>
   error + ((qobj \<times> novelty_info) \<times> 'h NoveltyFilter)" where
  "regen_loop sha tfidf_sims gen novelty 0 k linfo =
     Inr ((gen k, \<lparr>forced = True, last_info = linfo\<rparr>), novelty)"
| "regen_loop sha tfidf_sims gen novelty (Suc n) k linfo =
     (let q = gen k; qtext = strip (question q)
      in case is_novel sha tfidf_sims novelty qtext of
           Inl e \<Rightarrow> Inl e
         | Inr (ok, i) \<Rightarrow>
             if ok then Inr ((q, \<lparr>forced = False, last_info = Some i\<rparr>), add sha novelty qtext)
             else regen_loop sha tfidf_sims gen novelty n (Suc k) (Some i))"

definition generate_novel_question ::
  "(string \<Rightarrow> 'h) \<Rightarrow> (string list \<Rightarrow> string \<Rightarrow> error + real list) \<Rightarrow> (nat \<Rightarrow> qobj) \<Rightarrow>
   'h NoveltyFilter \<Rightarrow> int \<Rightarrow> error + ((qobj \<times> novelty_info) \<times> 'h NoveltyFilter)" where
  "generate_novel_question sha tfidf_sims gen novelty max_regen =
     regen_loop sha tfidf_sims gen novelty (nat max_regen) 0 None"

subsection \<open>Stand-ins for the library parameters in worked examples\<close>

text \<open>
  For the examples evaluated below the digest is replaced by the identity (two texts
  have the same fingerprint exactly when their normalised texts are equal), and the
  similarity by the crudest one: \<open>1\<close> for a history entry that normalises to the same
  text as the candidate and \<open>0\<close> for any other.
\<close>

definition same_text_sims :: "string list \<Rightarrow> string \<Rightarrow> error + real list" where
  "same_text_sims history candidate =
     Inr (map (\<lambda>t. if normalize_text t = normalize_text candidate then 1 else 0) history)"

text \<open>
  A generator that returns the question already in the history six times and a new one
  at the seventh call, and the filter of capacity two that was seeded with a history
  holding the same question twice and then accepted another question.
\<close>

definition q_seen :: qobj where
  "q_seen = \<lparr>question = ''What is 2+2?'', topic = ''arithmetic'', difficulty = 1, skills = []\<rparr>"

definition q_fresh :: qobj where
  "q_fresh = \<lparr>question = ''What is 3+3?'', topic = ''arithmetic'', difficulty = 1, skills = []\<rparr>"

definition gen_repeating :: "nat \<Rightarrow> qobj" where
  "gen_repeating k = (if k < 6 then q_seen else q_fresh)"

definition duplicate_history :: "string NoveltyFilter" where
  "duplicate_history =
     add id (seed id (new_filter (88 / 100) 2) [''What is 2+2?'', ''What is 2+2?''])
       ''Explain photosynthesis in plants.''"

section \<open>Grading (\<open>bench/evaluate.py\<close>)\<close>

subsection \<open>JSON values and the Python operations on them\<close>

text \<open>
  What \<^verbatim>\<open>json.loads\<close> returns: \<open>None\<close>, booleans, integers, floats (the finite ones as
  the reals they denote, and the three special values the parser accepts), strings,
  lists, and dictionaries as association lists in insertion order.
\<close>

datatype pyfloat = Fin real | PosInf | NegInf | NaN

datatype json =
    JNull
  | JBool bool
  | JInt int
  | JFloat pyfloat
  | JStr string
  | JList "json list"
  | JObj "(string \<times> json) list"

text \<open>Truth of a value in \<^verbatim>\<open>x or {}\<close>.\<close>

fun truthy :: "json \<Rightarrow> bool" where
  "truthy JNull = False"
| "truthy (JBool b) = b"
| "truthy (JInt i) = (i \<noteq> 0)"
| "truthy (JFloat f) = (f \<noteq> Fin 0)"
| "truthy (JStr s) = (s \<noteq> [])"
| "truthy (JList xs) = (xs \<noteq> [])"
| "truthy (JObj d) = (d \<noteq> [])"

text \<open>\<^verbatim>\<open>d[k] = v\<close> keeps the position of a key that is present and appends a new one;
  \<^verbatim>\<open>d.setdefault(k, v)\<close> stores \<open>v\<close> only when the key is missing.\<close>

fun dict_set :: "string \<Rightarrow> json \<Rightarrow> (string \<times> json) list \<Rightarrow> (string \<times> json) list" where
  "dict_set k v [] = [(k, v)]"
| "dict_set k v ((k', v') # d) =
     (if k = k' then (k, v) # d else (k', v') # dict_set k v d)"

definition setdefault :: "string \<Rightarrow> json \<Rightarrow> (string \<times> json) list \<Rightarrow> (string \<times> json) list" where
  "setdefault k v d = (case map_of d k of None \<Rightarrow> d @ [(k, v)] | Some old \<Rightarrow> d)"

text \<open>
  \<^verbatim>\<open>float(x)\<close>.  It raises \<open>TypeError\<close> for \<open>None\<close>, a list and a dictionary, \<open>OverflowError\<close>
  for an integer that rounds to a magnitude beyond the largest double, and \<open>ValueError\<close>
  for a string that is not a number; the parsing of a string is the parameter
  \<open>float_of_str\<close> (\<open>None\<close> when it fails).
\<close>

definition py_float :: "(string \<Rightarrow> pyfloat option) \<Rightarrow> json \<Rightarrow> error + pyfloat" where
  "py_float float_of_str x =
     (case x of
        JNull \<Rightarrow> Inl TypeError
      | JBool b \<Rightarrow> Inr (Fin (if b then 1 else 0))
      | JInt i \<Rightarrow> if \<bar>i\<bar> < 2 ^ 1024 - 2 ^ 970 then Inr (Fin (real_of_int i)) else Inl OverflowError
      | JFloat f \<Rightarrow> Inr f
      | JStr s \<Rightarrow> (case float_of_str s of None \<Rightarrow> Inl ValueError | Some f \<Rightarrow> Inr f)
      | JList xs \<Rightarrow> Inl TypeError
      | JObj d \<Rightarrow> Inl TypeError)"

text \<open>
  The comparison \<open><\<close> of floats (false whenever a NaN is involved), and the built-in
  \<^verbatim>\<open>min(a, b)\<close> and \<^verbatim>\<open>max(a, b)\<close>, which keep the first argument unless the second one
  is strictly smaller, respectively strictly greater.
\<close>

fun flt_less :: "pyfloat \<Rightarrow> pyfloat \<Rightarrow> bool" where
  "flt_less (Fin a) (Fin b) = (a < b)"
| "flt_less (Fin a) PosInf = True"
| "flt_less NegInf (Fin b) = True"
| "flt_less NegInf PosInf = True"
| "flt_less a b = False"

definition py_min :: "pyfloat \<Rightarrow> pyfloat \<Rightarrow> pyfloat" where
  "py_min a b = (if flt_less b a then b else a)"

definition py_max :: "pyfloat \<Rightarrow> pyfloat \<Rightarrow> pyfloat" where
  "py_max a b = (if flt_less a b then b else a)"

subsection \<open>Extraction of the JSON object\<close>

text \<open>
  \<^verbatim>\<open>
  def _safe_json_extract(s: str) -> Optional[Dict[str, Any]]:
      s = s.strip()
      try:
          return json.loads(s)
      except Exception:
          pass
      m = re.search(r"\{.*\}", s, flags=re.S)
      if not m:
          return None
      try:
          return json.loads(m.group(0))
      except Exception:
          return None
  \<close>
  \<^verbatim>\<open>json.loads\<close> is the parameter \<open>loads\<close> (\<open>None\<close> when it raises).  The regular expression
  matches from the first opening brace to the last closing brace after it.
\<close>

definition brace_block :: "string \<Rightarrow> string option" where
  "brace_block s =
     (let from_open = dropWhile (\<lambda>c. c \<noteq> CHR ''{'') s;
          block = rev (dropWhile (\<lambda>c. c \<noteq> CHR ''}'') (rev from_open))
      in if block = [] then None else Some block)"

definition safe_json_extract :: "(string \<Rightarrow> json option) \<Rightarrow> string \<Rightarrow> json option" where
  "safe_json_extract loads s0 =
     (let s = strip s0
      in case loads s of
           Some v \<Rightarrow> Some v
         | None \<Rightarrow> (case brace_block s of None \<Rightarrow> None | Some block \<Rightarrow> loads block))"

subsection \<open>Normalisation of the grader's reply\<close>

text \<open>
  \<^verbatim>\<open>
  def clamp(x):
      try:
          return max(0.0, min(1.0, float(x)))
      except Exception:
          return 0.0
  \<close>
\<close>

definition clamp :: "(string \<Rightarrow> pyfloat option) \<Rightarrow> json \<Rightarrow> pyfloat" where
  "clamp float_of_str x =
     (case py_float float_of_str x of
        Inl e \<Rightarrow> Fin 0
      | Inr f \<Rightarrow> py_max (Fin 0) (py_min (Fin 1) f))"

definition subscore_keys :: "string list" where
  "subscore_keys =
     [''correctness'', ''completeness'', ''reasoning_quality'', ''format_compliance'', ''safety'']"

text \<open>
  The part of \<open>evaluate\<close> after the reply of the grader has arrived:
  \<^verbatim>\<open>
  obj = _safe_json_extract(txt) or {}
  obj.setdefault("score", 0.0)
  obj.setdefault("subscores", {})
  for k in ["correctness", "completeness", "reasoning_quality", "format_compliance", "safety"]:
      obj["subscores"].setdefault(k, 0.0 if k != "safety" else 1.0)
  obj.setdefault("error_tags", [])
  obj.setdefault("feedback", "")
  obj["score"] = clamp(obj.get("score", 0.0))
  for k in list(obj["subscores"].keys()):
      obj["subscores"][k] = clamp(obj["subscores"][k])
  if not isinstance(obj["error_tags"], list):
      obj["error_tags"] = []
  return obj
  \<close>
  \<^verbatim>\<open>setdefault\<close> is a method of dictionaries only: on any other value the call raises
  \<open>AttributeError\<close>.  \<open>txt\<close> is the text \<^verbatim>\<open>self.client.chat\<close> returned.
\<close>

definition evaluate ::
  "(string \<Rightarrow> json option) \<Rightarrow> (string \<Rightarrow> pyfloat option) \<Rightarrow> string \<Rightarrow>
   error + (string \<times> json) list" where
  "evaluate loads float_of_str txt =
     (case (case safe_json_extract loads txt of
              None \<Rightarrow> JObj []
            | Some v \<Rightarrow> if truthy v then v else JObj []) of
        JObj obj0 \<Rightarrow>
          (let obj1 = setdefault ''score'' (JFloat (Fin 0)) obj0;
               obj2 = setdefault ''subscores'' (JObj []) obj1
           in case map_of obj2 ''subscores'' of
                Some (JObj subs0) \<Rightarrow>
                  (let subs1 = fold (\<lambda>k. setdefault k
                                  (JFloat (Fin (if k \<noteq> ''safety'' then 0 else 1))))
                                subscore_keys subs0;
                       obj3 = dict_set ''subscores'' (JObj subs1) obj2;
                       obj4 = setdefault ''error_tags'' (JList []) obj3;
                       obj5 = setdefault ''feedback'' (JStr []) obj4;
                       obj6 = dict_set ''score''
                                (JFloat (clamp float_of_str
                                   (case map_of obj5 ''score'' of
                                      None \<Rightarrow> JFloat (Fin 0) | Some v \<Rightarrow> v))) obj5;
                       subs2 = map (\<lambda>kv. (fst kv, JFloat (clamp float_of_str (snd kv)))) subs1;
                       obj7 = dict_set ''subscores'' (JObj subs2) obj6;
                       obj8 = (case map_of obj7 ''error_tags'' of
                                 Some (JList tags) \<Rightarrow> obj7
                               | _ \<Rightarrow> dict_set ''error_tags'' (JList []) obj7)
                   in Inr obj8)
              | _ \<Rightarrow> Inl AttributeError)
      | _ \<Rightarrow> Inl AttributeError)"

subsection \<open>The shape of an evaluation record in the words of the design document\<close>

definition unit_float :: "json option \<Rightarrow> bool" where
  "unit_float v = (case v of Some (JFloat (Fin r)) \<Rightarrow> 0 \<le> r \<and> r \<le> 1 | _ \<Rightarrow> False)"

definition well_formed_record :: "(string \<times> json) list \<Rightarrow> bool" where
  "well_formed_record obj =
     (unit_float (map_of obj ''score'') \<and>
      (case map_of obj ''subscores'' of
         Some (JObj subs) \<Rightarrow> list_all (\<lambda>k. unit_float (map_of subs k)) subscore_keys
       | _ \<Rightarrow> False) \<and>
      (case map_of obj ''error_tags'' of Some (JList tags) \<Rightarrow> True | _ \<Rightarrow> False))"

section \<open>Properties of the trend estimator\<close>

lemma powr_half_life_mono:
  assumes "0 < h1" "h1 < h2"
  shows "(2::real) powr (- 1 / h1) < 2 powr (- 1 / h2)"
proof -
  have "1 / h2 < 1 / h1" using assms by (simp add: frac_less2)
  then have "- 1 / h1 < - 1 / h2" by simp
  then show ?thesis by (simp add: powr_less_mono)
qed

text \<open>
  Claim C9.  \<open>alpha_from_half_life\<close> raises \<open>ValueError\<close> (the \<open>InvalidParameter\<close>
  condition) exactly when the half-life is at most zero; for a positive half-life it
  returns \<open>1 - 2 ^ (- 1 / half_life)\<close>; a half-life of one step gives the factor one half.
\<close>

theorem alpha_from_half_life_spec:
  "(alpha_from_half_life h = Inl ValueError \<longleftrightarrow> h \<le> 0) \<and>
   (isl (alpha_from_half_life h) \<longleftrightarrow> h \<le> 0) \<and>
   (0 < h \<longrightarrow> alpha_from_half_life h = Inr (1 - 2 powr (- 1 / h))) \<and>
   alpha_from_half_life 1 = Inr (1 / 2)"
  by (simp add: alpha_from_half_life_def powr_minus)

theorem alpha_from_half_life_spec_witness:
  "(alpha_from_half_life (- 3) = Inl ValueError \<longleftrightarrow> (- 3::real) \<le> 0) \<and>
   (0 < (1::real) \<and> alpha_from_half_life 1 = Inr (1 - 2 powr (- 1 / 1))) \<and>
   alpha_from_half_life 1 = Inr (1 / 2)"
  using alpha_from_half_life_spec [of 1] alpha_from_half_life_spec [of "- 3"] by simp

text \<open>
  Claim C3 as stated: the smoothing factor is strictly increasing in the half-life.
  It fails: a half-life of one step gives one half, a half-life of two steps gives
  \<open>1 - 2 ^ (- 1 / 2)\<close>, which is smaller.
\<close>

theorem alpha_increasing_counterexample:
  "\<not> (projr (alpha_from_half_life 1) < projr (alpha_from_half_life 2))"
  using powr_half_life_mono [of 1 2] by (simp add: alpha_from_half_life_def)

lemma alpha_from_half_life_fl_exact:
  "alpha_from_half_life_fl id id h = alpha_from_half_life h"
  by (simp add: alpha_from_half_life_fl_def alpha_from_half_life_def)

lemma mono_round_to_grid: "mono round_to_grid"
proof (rule monoI)
  fix x y :: real assume "x \<le> y"
  then have "\<lfloor>x * 2 ^ 53\<rfloor> \<le> \<lfloor>y * 2 ^ 53\<rfloor>" by (intro floor_mono) simp
  then show "round_to_grid x \<le> round_to_grid y"
    by (simp add: round_to_grid_def divide_right_mono)
qed

lemma one_minus_powr_bounds:
  fixes h :: real
  assumes "0 < h"
  shows "0 \<le> 1 - 2 powr (- 1 / h)" "1 - 2 powr (- 1 / h) \<le> 1 / h"
proof -
  have "(2::real) powr (- 1 / h) \<le> 2 powr 0"
    using assms by (intro powr_mono) simp_all
  then show "0 \<le> 1 - 2 powr (- 1 / h)" by simp
  have "1 + (- 1 / h) * ln 2 \<le> exp ((- 1 / h) * ln 2)" by (rule exp_ge_add_one_self)
  also have "\<dots> = 2 powr (- 1 / h)" by (simp add: powr_def mult.commute)
  finally have "1 - 2 powr (- 1 / h) \<le> (1 / h) * ln 2" by simp
  also have "\<dots> \<le> (1 / h) * 1"
    using assms ln_2_less_1 by (intro mult_left_mono) simp_all
  finally show "1 - 2 powr (- 1 / h) \<le> 1 / h" by simp
qed

lemma grid_tie:
  assumes "2 ^ 53 < h"
  shows "alpha_from_half_life_fl id round_to_grid h = Inr 0"
proof -
  have "(0::real) < 2 ^ 53" by simp
  then have h: "0 < h" using assms by linarith
  note b = one_minus_powr_bounds [OF h]
  have "1 / h < 1 / 2 ^ 53" using assms by (intro divide_strict_left_mono) simp_all
  then have "(1 - 2 powr (- 1 / h)) * 2 ^ 53 < 1" using b(2) by (simp add: field_simps) 
  moreover have "0 \<le> (1 - 2 powr (- 1 / h)) * 2 ^ 53" using b(1) by simp
  ultimately have "\<lfloor>(1 - 2 powr (- 1 / h)) * 2 ^ 53\<rfloor> = 0" by (simp add: floor_eq_iff)
  then show ?thesis using h by (simp add: alpha_from_half_life_fl_def round_to_grid_def)
qed

text \<open>
  Claim C3, amended.  The smoothing factor \<open>alpha_from_half_life\<close> returns does not
  increase with the half-life: for all half-lives \<open>0 < h1 < h2\<close> both calls return and
  the factor for \<open>h2\<close> is at most the factor for \<open>h1\<close>, provided the floating-point power
  and subtraction round monotonically (a larger exact value never gets a smaller
  double).  In exact arithmetic the factor for \<open>h2\<close> is strictly smaller; the rounded
  factors can be equal, as they are for two very long half-lives in the witness.
\<close>

theorem alpha_non_increasing:
  assumes "0 < h1" "h1 < h2" "mono fl_pow" "mono fl_sub"
  shows "\<not> isl (alpha_from_half_life_fl fl_pow fl_sub h1) \<and>
         \<not> isl (alpha_from_half_life_fl fl_pow fl_sub h2) \<and>
         projr (alpha_from_half_life_fl fl_pow fl_sub h2)
           \<le> projr (alpha_from_half_life_fl fl_pow fl_sub h1) \<and>
         projr (alpha_from_half_life_fl id id h2) < projr (alpha_from_half_life_fl id id h1)"
proof -
  note p = powr_half_life_mono [OF assms(1,2)]
  have "fl_pow (2 powr (- 1 / h1)) \<le> fl_pow (2 powr (- 1 / h2))"
    using p by (intro monoD [OF assms(3)]) simp
  then have "fl_sub (1 - fl_pow (2 powr (- 1 / h2))) \<le> fl_sub (1 - fl_pow (2 powr (- 1 / h1)))"
    by (intro monoD [OF assms(4)]) simp
  then show ?thesis using assms(1,2) p by (simp add: alpha_from_half_life_fl_def)
qed

theorem alpha_non_increasing_witness:
  "(0::real) < 125 * 10 ^ 14 \<and> (125 * 10 ^ 14 :: real) < 10 ^ 17 \<and>
   mono (id :: real \<Rightarrow> real) \<and> mono round_to_grid \<and>
   alpha_from_half_life_fl id round_to_grid (125 * 10 ^ 14) = Inr 0 \<and>
   alpha_from_half_life_fl id round_to_grid (10 ^ 17) = Inr 0 \<and>
   projr (alpha_from_half_life_fl id round_to_grid (10 ^ 17))
     \<le> projr (alpha_from_half_life_fl id round_to_grid (125 * 10 ^ 14)) \<and>
   projr (alpha_from_half_life_fl id id (10 ^ 17))
     < projr (alpha_from_half_life_fl id id (125 * 10 ^ 14))"
proof -
  have m: "mono (id :: real \<Rightarrow> real)" by (simp add: mono_def)
  have t1: "alpha_from_half_life_fl id round_to_grid (125 * 10 ^ 14) = Inr 0"
    by (rule grid_tie) simp
  have t2: "alpha_from_half_life_fl id round_to_grid (10 ^ 17) = Inr 0"
    by (rule grid_tie) simp
  have o: "(0::real) < 125 * 10 ^ 14" "(125 * 10 ^ 14 :: real) < 10 ^ 17" by simp_all
  from alpha_non_increasing [OF o m mono_round_to_grid] show ?thesis
    using o m mono_round_to_grid t1 t2 by blast
qed

lemma update_Some:
  "current_value e = Some v \<Longrightarrow>
   update e x = (e\<lparr>current_value := Some (alpha e * x + (1 - alpha e) * v)\<rparr>,
                 alpha e * x + (1 - alpha e) * v)"
  by (simp add: update_def Let_def)

lemma update_None:
  "current_value e = None \<Longrightarrow> update e x = (e\<lparr>current_value := Some x\<rparr>, x)"
  by (simp add: update_def Let_def)

lemma update_bounds:
  assumes "0 \<le> alpha e" "alpha e \<le> 1" "0 \<le> x" "x \<le> 1"
    and "case current_value e of None \<Rightarrow> True | Some v \<Rightarrow> 0 \<le> v \<and> v \<le> 1"
  shows "0 \<le> snd (update e x) \<and> snd (update e x) \<le> 1 \<and>
         current_value (fst (update e x)) = Some (snd (update e x)) \<and>
         alpha (fst (update e x)) = alpha e"
proof (cases "current_value e")
  case None
  then show ?thesis using assms by (simp add: update_None)
next
  case (Some v)
  with assms have v: "0 \<le> v" "v \<le> 1" by simp_all
  have lo: "0 \<le> alpha e * x + (1 - alpha e) * v"
    using assms v by simp
  have "alpha e * x \<le> alpha e * 1"
    using assms by (intro mult_left_mono) simp_all
  moreover have "(1 - alpha e) * v \<le> (1 - alpha e) * 1"
    using assms v by (intro mult_left_mono) simp_all
  ultimately have hi: "alpha e * x + (1 - alpha e) * v \<le> 1" by simp
  show ?thesis using lo hi by (simp add: update_Some [OF Some])
qed

lemma updates_bounds:
  assumes "0 \<le> alpha e" "alpha e \<le> 1" "\<forall>x\<in>set xs. 0 \<le> x \<and> x \<le> 1"
    and "case current_value e of None \<Rightarrow> True | Some v \<Rightarrow> 0 \<le> v \<and> v \<le> 1"
  shows "(\<forall>v\<in>set (snd (updates e xs)). 0 \<le> v \<and> v \<le> 1) \<and>
         (case current_value (fst (updates e xs)) of
            None \<Rightarrow> True | Some v \<Rightarrow> 0 \<le> v \<and> v \<le> 1)"
  using assms
proof (induction xs arbitrary: e)
  case Nil
  then show ?case by simp
next
  case (Cons x xs)
  obtain e1 v where u: "update e x = (e1, v)" by (cases "update e x")
  from Cons.prems have "0 \<le> x" "x \<le> 1" by simp_all
  from update_bounds [OF Cons.prems(1,2) this Cons.prems(4)] u
  have b: "0 \<le> v" "v \<le> 1" "current_value e1 = Some v" "alpha e1 = alpha e" by simp_all
  have ih: "(\<forall>v\<in>set (snd (updates e1 xs)). 0 \<le> v \<and> v \<le> 1) \<and>
         (case current_value (fst (updates e1 xs)) of
            None \<Rightarrow> True | Some v \<Rightarrow> 0 \<le> v \<and> v \<le> 1)"
    using Cons.prems b by (intro Cons.IH) simp_all
  show ?case using u ih b by (simp add: split_beta)
qed

lemma updates_last:
  "xs \<noteq> [] \<Longrightarrow> current_value (fst (updates e xs)) = Some (last (snd (updates e xs)))"
proof (induction xs arbitrary: e)
  case Nil
  then show ?case by simp
next
  case (Cons x xs)
  show ?case
  proof (cases "xs = []")
    case True
    then show ?thesis by (simp add: update_def Let_def split_beta)
  next
    case False
    then have "snd (updates (fst (update e x)) xs) \<noteq> []"
      by (cases xs) (simp_all add: split_beta)
    then show ?thesis using Cons.IH [OF False, of "fst (update e x)"]
      by (simp add: split_beta)
  qed
qed

text \<open>
  Claim C10.  If the smoothing factor is in \<open>[0, 1]\<close>, the estimator holds no value or a
  value in \<open>[0, 1]\<close>, and every input passed to \<open>update\<close> is in \<open>[0, 1]\<close>, then every
  value returned by an update and the value stored afterwards are in \<open>[0, 1]\<close>.  The
  list of inputs is arbitrary, so this holds after each update of a run.
\<close>

theorem ema_stays_in_unit_interval:
  assumes "0 \<le> alpha e" "alpha e \<le> 1" "\<forall>x\<in>set xs. 0 \<le> x \<and> x \<le> 1"
    and "case current_value e of None \<Rightarrow> True | Some v \<Rightarrow> 0 \<le> v \<and> v \<le> 1"
  shows "(\<forall>v\<in>set (snd (updates e xs)). 0 \<le> v \<and> v \<le> 1) \<and>
         (xs \<noteq> [] \<longrightarrow>
            (\<exists>v. current_value (fst (updates e xs)) = Some v \<and> 0 \<le> v \<and> v \<le> 1))"
proof -
  note b = updates_bounds [OF assms]
  have "\<exists>v. current_value (fst (updates e xs)) = Some v" if "xs \<noteq> []"
    using updates_last [OF that] by blast
  then show ?thesis using b by (auto split: option.splits)
qed

theorem ema_stays_in_unit_interval_witness:
  "(0::real) \<le> 1 / 2 \<and> (1 / 2::real) \<le> 1 \<and>
   list_all (\<lambda>x. 0 \<le> x \<and> x \<le> 1) [1, 0 :: real] \<and>
   snd (updates \<lparr>alpha = 1 / 2, current_value = None\<rparr> [1, 0]) = [1, 1 / 2] \<and>
   list_all (\<lambda>v. 0 \<le> v \<and> v \<le> 1) (snd (updates \<lparr>alpha = 1 / 2, current_value = None\<rparr> [1, 0])) \<and>
   current_value (fst (updates \<lparr>alpha = 1 / 2, current_value = None\<rparr> [1, 0])) = Some (1 / 2)"
  using ema_stays_in_unit_interval [of "\<lparr>alpha = 1 / 2, current_value = None\<rparr>" "[1, 0]"]
  by (simp add: update_def Let_def)

lemma updates_from_Some:
  "current_value e = Some v0 \<Longrightarrow>
   current_value (fst (updates e xs)) =
     Some ((\<Sum>k<length xs. alpha e * (1 - alpha e) ^ k * xs ! (length xs - 1 - k))
            + (1 - alpha e) ^ length xs * v0)"
proof (induction xs arbitrary: e v0)
  case Nil
  then show ?case by simp
next
  case (Cons x xs)
  let ?a = "alpha e"
  let ?e1 = "e\<lparr>current_value := Some (?a * x + (1 - ?a) * v0)\<rparr>"
  have u: "update e x = (?e1, ?a * x + (1 - ?a) * v0)"
    using Cons.prems by (rule update_Some)
  have ih: "current_value (fst (updates ?e1 xs)) =
     Some ((\<Sum>k<length xs. ?a * (1 - ?a) ^ k * xs ! (length xs - 1 - k))
            + (1 - ?a) ^ length xs * (?a * x + (1 - ?a) * v0))"
    using Cons.IH [of ?e1 "?a * x + (1 - ?a) * v0"] by simp
  have shift: "(\<Sum>k<length xs. ?a * (1 - ?a) ^ k * (x # xs) ! (length xs - k))
      = (\<Sum>k<length xs. ?a * (1 - ?a) ^ k * xs ! (length xs - 1 - k))"
    by (rule sum.cong) (auto simp: nth_Cons')
  have "(\<Sum>k<length (x # xs). ?a * (1 - ?a) ^ k * (x # xs) ! (length (x # xs) - 1 - k))
      = (\<Sum>k<length xs. ?a * (1 - ?a) ^ k * xs ! (length xs - 1 - k))
          + ?a * (1 - ?a) ^ length xs * x"
    using shift by simp
  then show ?case using u ih by (simp add: split_beta algebra_simps)
qed

text \<open>
  Claim C4 as stated: after the inputs \<open>x_0, ..., x_n\<close> the current value is the sum in
  which \<open>x_(n-k)\<close> has weight \<open>factor * (1 - factor) ^ k\<close> for every \<open>k\<close> from \<open>0\<close> to
  \<open>n\<close>.  It fails already for a single input: with factor one half, \<open>update 1\<close> on a
  fresh estimator stores \<open>1\<close>, not one half.
\<close>

theorem ema_first_weight_counterexample:
  "current_value (fst (updates \<lparr>alpha = 1 / 2, current_value = None\<rparr> [1]))
     \<noteq> Some (spec_weighted_sum (1 / 2) [1])"
  by (simp add: spec_weighted_sum_def update_def Let_def)

text \<open>
  Claim C4, amended.  After \<open>n + 1\<close> updates with inputs \<open>x_0, ..., x_n\<close> on an
  estimator without a prior value, the current value (which is also the value the last
  update returned) is the weighted sum in which \<open>x_(n-k)\<close> has weight
  \<open>factor * (1 - factor) ^ k\<close> for every \<open>k\<close> from \<open>0\<close> to \<open>n - 1\<close>, and the first input
  \<open>x_0\<close>, which initialised the estimator, has weight \<open>(1 - factor) ^ n\<close>.
\<close>

theorem ema_weights:
  assumes "xs \<noteq> []"
  shows "current_value (fst (updates \<lparr>alpha = a, current_value = None\<rparr> xs)) = Some (ema_closed_form a xs) \<and>
         last (snd (updates \<lparr>alpha = a, current_value = None\<rparr> xs)) = ema_closed_form a xs"
proof -
  obtain x0 ys where xs: "xs = x0 # ys" using assms by (cases xs) auto
  let ?e = "\<lparr>alpha = a, current_value = None\<rparr>"
  let ?e1 = "\<lparr>alpha = a, current_value = Some x0\<rparr>"
  have u: "update ?e x0 = (?e1, x0)" by (simp add: update_def Let_def)
  have "current_value (fst (updates ?e1 ys)) =
     Some ((\<Sum>k<length ys. a * (1 - a) ^ k * ys ! (length ys - 1 - k)) + (1 - a) ^ length ys * x0)"
    using updates_from_Some [of ?e1 x0 ys] by simp
  moreover have "(\<Sum>k<length ys. a * (1 - a) ^ k * (x0 # ys) ! (length ys - k))
      = (\<Sum>k<length ys. a * (1 - a) ^ k * ys ! (length ys - 1 - k))"
    by (rule sum.cong) (auto simp: nth_Cons')
  ultimately have v: "current_value (fst (updates ?e xs)) = Some (ema_closed_form a xs)"
    using u by (simp add: xs ema_closed_form_def split_beta)
  moreover have "current_value (fst (updates ?e xs)) = Some (last (snd (updates ?e xs)))"
    using assms by (rule updates_last)
  ultimately show ?thesis by simp
qed

theorem ema_weights_witness:
  "[1, 0] \<noteq> ([]::real list) \<and>
   current_value (fst (updates \<lparr>alpha = 1 / 2, current_value = None\<rparr> [1, 0])) = Some (1 / 2) \<and>
   last (snd (updates \<lparr>alpha = 1 / 2, current_value = None\<rparr> [1, 0])) = 1 / 2"
  using ema_weights [of "[1, 0]" "1 / 2"] by (simp add: ema_closed_form_def)

section \<open>Properties of the curriculum policy\<close>

lemma Counter_snoc: "Counter (xs @ [x]) = counter_add x (Counter xs)"
  by (simp add: Counter_def)

lemma map_of_counter_add:
  "map_of (counter_add x cs) =
     (map_of cs)(x \<mapsto> (case map_of cs x of None \<Rightarrow> 1 | Some c \<Rightarrow> c + 1))"
  by (induction x cs rule: counter_add.induct) (auto simp: fun_eq_iff)

lemma keys_counter_add:
  "map fst (counter_add x cs) =
     (if x \<in> set (map fst cs) then map fst cs else map fst cs @ [x])"
  by (induction x cs rule: counter_add.induct) auto

lemma count_list_snoc:
  "count_list (xs @ [x]) t = count_list xs t + (if x = t then 1 else 0)"
  by (induction xs) auto

lemma map_of_Counter:
  "map_of (Counter xs) t = (if t \<in> set xs then Some (count_list xs t) else None)"
proof (induction xs rule: rev_induct)
  case Nil
  then show ?case by (simp add: Counter_def)
next
  case (snoc x xs)
  then show ?case
    by (auto simp: Counter_snoc map_of_counter_add count_list_snoc count_list_0_iff)
qed

lemma first_index_less: "a \<in> set xs \<Longrightarrow> first_index xs a < length xs"
  unfolding first_index_def by (induction xs) auto

lemma first_index_append_in: "a \<in> set xs \<Longrightarrow> first_index (xs @ ys) a = first_index xs a"
  unfolding first_index_def by (subst takeWhile_append1 [where x = a]) auto

lemma first_index_snoc_new: "x \<notin> set xs \<Longrightarrow> first_index (xs @ [x]) x = length xs"
  unfolding first_index_def by (subst takeWhile_append2) auto

lemma keys_Counter:
  "set (map fst (Counter xs)) = set xs \<and> distinct (map fst (Counter xs)) \<and>
   sorted_wrt (\<lambda>a b. first_index xs a < first_index xs b) (map fst (Counter xs))"
proof (induction xs rule: rev_induct)
  case Nil
  then show ?case by (simp add: Counter_def)
next
  case (snoc x xs)
  let ?ks = "map fst (Counter xs)"
  from snoc have s: "set ?ks = set xs" and d: "distinct ?ks"
    and o: "sorted_wrt (\<lambda>a b. first_index xs a < first_index xs b) ?ks" by simp_all
  have o': "sorted_wrt (\<lambda>a b. first_index (xs @ [x]) a < first_index (xs @ [x]) b) ?ks"
    using o s by (auto intro!: sorted_wrt_mono_rel [OF _ o] simp: first_index_append_in)
  show ?case
  proof (cases "x \<in> set xs")
    case True
    then show ?thesis using s d o' by (simp add: Counter_snoc keys_counter_add insert_absorb)
  next
    case False
    have "\<forall>a\<in>set xs. first_index (xs @ [x]) a < first_index (xs @ [x]) x"
      using False by (simp add: first_index_append_in first_index_snoc_new first_index_less)
    then show ?thesis using s d o' False
      by (simp add: Counter_snoc keys_counter_add sorted_wrt_append)
  qed
qed

lemma insort_key_stable_order:
  assumes "sorted_wrt (\<lambda>a b. f a < f b \<or> (f a = f b \<and> Q a b)) ys" "\<forall>y\<in>set ys. Q x y"
  shows "sorted_wrt (\<lambda>a b. f a < f b \<or> (f a = f b \<and> Q a b)) (insort_key f x ys)"
  using assms
proof (induction ys)
  case Nil
  then show ?case by simp
next
  case (Cons y ys)
  show ?case
  proof (cases "f x \<le> f y")
    case True
    have "f x < f z \<or> (f x = f z \<and> Q x z)" if "z \<in> set (y # ys)" for z
    proof -
      have "f y \<le> f z" using that Cons.prems(1) by auto
      then have "f x \<le> f z" using True by simp
      then show ?thesis using Cons.prems(2) that by auto
    qed
    then show ?thesis using True Cons.prems(1) by simp
  next
    case False
    have "sorted_wrt (\<lambda>a b. f a < f b \<or> (f a = f b \<and> Q a b)) (insort_key f x ys)"
      using Cons by simp
    then show ?thesis using False Cons.prems(1) by (auto simp: set_insort_key)
  qed
qed

lemma sort_key_stable_order:
  fixes f :: "'a \<Rightarrow> 'b::linorder"
  assumes "sorted_wrt Q xs"
  shows "sorted_wrt (\<lambda>a b. f a < f b \<or> (f a = f b \<and> Q a b)) (sort_key f xs)"
  using assms
proof (induction xs)
  case Nil
  then show ?case by simp
next
  case (Cons x xs)
  then show ?case by (simp add: insort_key_stable_order)
qed

lemma ranked_Counter:
  fixes tags :: "'a list"
  defines "ranked \<equiv> map fst (sort_key (\<lambda>tc. - int (snd tc)) (Counter tags))"
  shows "distinct ranked \<and> set ranked = set tags \<and> sorted_wrt (ranks_before tags) ranked"
proof -
  let ?cs = "Counter tags"
  let ?f = "\<lambda>tc::'a \<times> nat. - int (snd tc)"
  let ?Q = "\<lambda>p q::'a \<times> nat. first_index tags (fst p) < first_index tags (fst q)"
  note k = keys_Counter [of tags]
  have cnt: "snd p = count_list tags (fst p)" if "p \<in> set ?cs" for p
  proof -
    have "map_of ?cs (fst p) = Some (snd p)"
      using that k by (intro map_of_is_SomeI) simp_all
    then show ?thesis by (simp add: map_of_Counter split: if_splits)
  qed
  have "distinct ?cs \<and> inj_on fst (set ?cs)" using k by (simp add: distinct_map)
  then have d: "distinct ranked" unfolding ranked_def by (simp add: distinct_map)
  have s: "set ranked = set tags" unfolding ranked_def using k by simp
  have "sorted_wrt ?Q ?cs" using k by (simp add: sorted_wrt_map)
  then have "sorted_wrt (\<lambda>a b. ?f a < ?f b \<or> (?f a = ?f b \<and> ?Q a b)) (sort_key ?f ?cs)"
    by (rule sort_key_stable_order)
  then have "sorted_wrt (\<lambda>a b. ranks_before tags (fst a) (fst b)) (sort_key ?f ?cs)"
  proof (rule sorted_wrt_mono_rel [rotated])
    fix a b assume "a \<in> set (sort_key ?f ?cs)" "b \<in> set (sort_key ?f ?cs)"
      and "?f a < ?f b \<or> (?f a = ?f b \<and> ?Q a b)"
    then show "ranks_before tags (fst a) (fst b)"
      using cnt [of a] cnt [of b] by (auto simp: ranks_before_def)
  qed
  then have "sorted_wrt (ranks_before tags) ranked"
    unfolding ranked_def by (simp add: sorted_wrt_map)
  then show ?thesis using d s by simp
qed

lemma recent_records_positive:
  "0 < window p \<Longrightarrow> recent_records p hist = most_recent (nat (window p)) hist"
  by (simp add: recent_records_def py_last_n_def most_recent_def)

lemma recent_records_zero:
  "window p = 0 \<Longrightarrow> recent_records p hist = hist"
  by (simp add: recent_records_def py_last_n_def)

lemma ranks_before_asym: "ranks_before xs a b \<Longrightarrow> \<not> ranks_before xs b a"
  by (auto simp: ranks_before_def)

lemma sorted_wrt_asym_unique:
  assumes asym: "\<And>a b. R a b \<Longrightarrow> \<not> R b a"
  shows "distinct xs \<Longrightarrow> distinct ys \<Longrightarrow> set xs = set ys \<Longrightarrow>
         sorted_wrt R xs \<Longrightarrow> sorted_wrt R ys \<Longrightarrow> xs = ys"
proof (induction xs arbitrary: ys)
  case Nil
  then show ?case by simp
next
  case (Cons x xs)
  then obtain y ys' where ys: "ys = y # ys'" by (cases ys) auto
  have xy: "x = y"
  proof (rule ccontr)
    assume ne: "x \<noteq> y"
    then have "x \<in> set ys'" "y \<in> set xs" using Cons.prems(3) ys by auto
    then have "R y x" "R x y" using Cons.prems(4,5) ys by auto
    then show False using asym by blast
  qed
  then have "set xs = set ys'" using Cons.prems(1,2,3) ys by auto
  then have "xs = ys'" using Cons.prems ys by (intro Cons.IH) simp_all
  then show ?case using xy ys by simp
qed

text \<open>
  For every evaluation history and every window of at least one record, the focus tags
  \<open>next_focus\<close> returns are the first \<open>k = focus_top_k_tags\<close> entries of the ranking of the
  error tags collected over the most recent \<open>window\<close> records: the list of the distinct
  tags in which a tag stands before another one exactly when it is more frequent, or
  equally frequent and first seen earlier.  There is exactly one such list.
\<close>

lemma next_focus_tags_ranked:
  assumes "0 < window p"
  shows "(\<exists>ranked. distinct ranked \<and>
            set ranked = set (window_tags (nat (window p)) hist) \<and>
            sorted_wrt (ranks_before (window_tags (nat (window p)) hist)) ranked \<and>
            snd (next_focus p hist) = take (nat (focus_top_k_tags p)) ranked) \<and>
         (\<forall>ranked. distinct ranked \<and>
            set ranked = set (window_tags (nat (window p)) hist) \<and>
            sorted_wrt (ranks_before (window_tags (nat (window p)) hist)) ranked \<longrightarrow>
            snd (next_focus p hist) = take (nat (focus_top_k_tags p)) ranked)"
proof -
  let ?tags = "window_tags (nat (window p)) hist"
  let ?ranked = "map fst (sort_key (\<lambda>tc. - int (snd tc)) (Counter ?tags))"
  have out: "snd (next_focus p hist) = take (nat (focus_top_k_tags p)) ?ranked"
    using assms
    by (simp add: next_focus_def Let_def most_common_def take_map window_tags_def
        recent_records_positive)
  note r = ranked_Counter [of ?tags]
  have "ranked = ?ranked"
    if "distinct ranked \<and> set ranked = set ?tags \<and> sorted_wrt (ranks_before ?tags) ranked"
    for ranked
    using that r by (intro sorted_wrt_asym_unique [of "ranks_before ?tags"])
      (simp_all add: ranks_before_asym)
  then show ?thesis using out r by blast
qed

lemma next_focus_example:
  "next_focus default_policy
     [\<lparr>error_tags = Some [''b'', ''a'', ''c'', ''a'', ''d''], subscores = None\<rparr>,
      \<lparr>error_tags = Some [''c''], subscores = Some [(''correctness'', 1 / 2)]\<rparr>]
   = ([''structured reasoning''], [''a'', ''c'', ''b''])"
  by (simp add: next_focus_def default_policy_def recent_records_def py_last_n_def
      tags_of_def low_subskills_of_def Counter_def most_common_def skill_map_def)

lemma next_focus_tags_ranked_example:
  "0 < window default_policy \<and>
   snd (next_focus default_policy
     [\<lparr>error_tags = Some [''b'', ''a'', ''c'', ''a'', ''d''], subscores = None\<rparr>,
      \<lparr>error_tags = Some [''c''], subscores = Some [(''correctness'', 1 / 2)]\<rparr>])
     = [''a'', ''c'', ''b''] \<and>
   (\<exists>ranked. distinct ranked \<and>
      set ranked = set [''b'', ''a'', ''c'', ''a'', ''d'', ''c''] \<and>
      sorted_wrt (ranks_before [''b'', ''a'', ''c'', ''a'', ''d'', ''c'']) ranked \<and>
      [''a'', ''c'', ''b''] = take 3 ranked)"
proof -
  let ?h = "[\<lparr>error_tags = Some [''b'', ''a'', ''c'', ''a'', ''d''], subscores = None\<rparr>,
      \<lparr>error_tags = Some [''c''], subscores = Some [(''correctness'', 1 / 2)]\<rparr>]"
  have w: "0 < window default_policy" by (simp add: default_policy_def)
  have t: "window_tags (nat (window default_policy)) ?h = [''b'', ''a'', ''c'', ''a'', ''d'', ''c'']"
    by (simp add: default_policy_def window_tags_def most_recent_def tags_of_def)
  have k: "nat (focus_top_k_tags default_policy) = 3" by (simp add: default_policy_def)
  have out: "snd (next_focus default_policy ?h) = [''a'', ''c'', ''b'']"
    by (simp add: next_focus_example)
  have "\<exists>ranked. distinct ranked \<and>
      set ranked = set [''b'', ''a'', ''c'', ''a'', ''d'', ''c''] \<and>
      sorted_wrt (ranks_before [''b'', ''a'', ''c'', ''a'', ''d'', ''c'']) ranked \<and>
      [''a'', ''c'', ''b''] = take 3 ranked"
    using next_focus_tags_ranked [OF w, of ?h] unfolding t k out by (rule conjunct1)
  then show ?thesis using w out by blast
qed

text \<open>
  Claim C5 on the code.  With \<open>window = 0\<close> the slice \<^verbatim>\<open>eval_history[-0:]\<close> is the whole
  history, so \<open>next_focus\<close> ranks the tags of every record: for a history of one record
  with the tag \<open>hallucination\<close> it returns that tag as focus tag.  The most recent zero
  records hold no tag, and the claim gives the empty list.
\<close>

theorem next_focus_window_zero_takes_all:
  "snd (next_focus \<lparr>window = 0, focus_top_k_tags = 3, difficulty_min = 1, difficulty_max = 5\<rparr>
          [\<lparr>error_tags = Some [''hallucination''], subscores = None\<rparr>])
     = [''hallucination''] \<and>
   window_tags 0 [\<lparr>error_tags = Some [''hallucination''], subscores = None\<rparr>] = []"
  by (simp add: next_focus_def recent_records_def py_last_n_def tags_of_def
      low_subskills_of_def Counter_def most_common_def window_tags_def most_recent_def)

lemma adjust_difficulty_bounds:
  "difficulty_min p \<le> difficulty_max p \<Longrightarrow>
   difficulty_min p \<le> adjust_difficulty p c v \<and> adjust_difficulty p c v \<le> difficulty_max p"
  by (simp add: adjust_difficulty_def Let_def)

lemma adjust_many_bounds:
  assumes "difficulty_min p \<le> difficulty_max p"
    and "vs \<noteq> [] \<or> (difficulty_min p \<le> c \<and> c \<le> difficulty_max p)"
  shows "difficulty_min p \<le> adjust_many p c vs \<and> adjust_many p c vs \<le> difficulty_max p"
  using assms(2)
proof (induction vs arbitrary: c)
  case Nil
  then show ?case by simp
next
  case (Cons v vs)
  have "difficulty_min p \<le> adjust_many p (adjust_difficulty p c v) vs \<and>
        adjust_many p (adjust_difficulty p c v) vs \<le> difficulty_max p"
    using adjust_difficulty_bounds [OF assms(1)] by (intro Cons.IH) simp
  then show ?case by simp
qed

text \<open>
  Claim C7.  \<open>adjust_difficulty\<close> moves the difficulty one level up when the trend value is
  at least \<open>0.82\<close>, one level down when it is at most \<open>0.62\<close>, and leaves it unchanged in
  between, and clamps the result into \<open>[difficulty_min, difficulty_max]\<close>.  With the
  default bounds \<open>[1, 5]\<close>, difficulty \<open>3\<close> becomes \<open>4\<close> at trend \<open>0.82\<close>, \<open>2\<close> at \<open>0.62\<close> and
  stays \<open>3\<close> at \<open>0.7\<close>.  For bounds with \<open>difficulty_min \<le> difficulty_max\<close> the result of
  every adjustment is within the bounds, and so is the result of any number of
  consecutive adjustments.
\<close>

theorem adjust_difficulty_spec:
  assumes "difficulty_min p \<le> difficulty_max p"
  shows "(82 / 100 \<le> v \<longrightarrow>
            adjust_difficulty p c v = max (difficulty_min p) (min (difficulty_max p) (c + 1))) \<and>
         (v \<le> 62 / 100 \<longrightarrow>
            adjust_difficulty p c v = max (difficulty_min p) (min (difficulty_max p) (c - 1))) \<and>
         (62 / 100 < v \<and> v < 82 / 100 \<longrightarrow>
            adjust_difficulty p c v = max (difficulty_min p) (min (difficulty_max p) c)) \<and>
         difficulty_min p \<le> adjust_difficulty p c v \<and>
         adjust_difficulty p c v \<le> difficulty_max p \<and>
         (vs \<noteq> [] \<longrightarrow>
            difficulty_min p \<le> adjust_many p c vs \<and> adjust_many p c vs \<le> difficulty_max p) \<and>
         adjust_difficulty default_policy 3 (82 / 100) = 4 \<and>
         adjust_difficulty default_policy 3 (62 / 100) = 2 \<and>
         adjust_difficulty default_policy 3 (7 / 10) = 3"
proof -
  have steps: "(82 / 100 \<le> v \<longrightarrow>
            adjust_difficulty p c v = max (difficulty_min p) (min (difficulty_max p) (c + 1))) \<and>
         (v \<le> 62 / 100 \<longrightarrow>
            adjust_difficulty p c v = max (difficulty_min p) (min (difficulty_max p) (c - 1))) \<and>
         (62 / 100 < v \<and> v < 82 / 100 \<longrightarrow>
            adjust_difficulty p c v = max (difficulty_min p) (min (difficulty_max p) c))"
    by (simp add: adjust_difficulty_def Let_def)
  have many: "vs \<noteq> [] \<longrightarrow>
            difficulty_min p \<le> adjust_many p c vs \<and> adjust_many p c vs \<le> difficulty_max p"
    using adjust_many_bounds [OF assms, of vs c] by simp
  have ex: "adjust_difficulty default_policy 3 (82 / 100) = 4 \<and>
         adjust_difficulty default_policy 3 (62 / 100) = 2 \<and>
         adjust_difficulty default_policy 3 (7 / 10) = 3"
    by (simp add: adjust_difficulty_def default_policy_def Let_def)
  show ?thesis using steps many ex adjust_difficulty_bounds [OF assms, of c v] by blast
qed

theorem adjust_difficulty_spec_witness:
  "difficulty_min default_policy \<le> difficulty_max default_policy \<and>
   (82 / 100 :: real) \<le> 9 / 10 \<and>
   adjust_difficulty default_policy 5 (9 / 10) = 5 \<and>
   adjust_difficulty default_policy 4 (9 / 10) = 5 \<and>
   (1 / 10 :: real) \<le> 62 / 100 \<and>
   adjust_difficulty default_policy 1 (1 / 10) = 1 \<and>
   adjust_many default_policy 3 [9 / 10, 9 / 10, 9 / 10, 9 / 10] = 5 \<and>
   adjust_many default_policy 3 [1 / 10, 1 / 10, 1 / 10, 7 / 10] = 1"
  using adjust_difficulty_spec [of default_policy "9 / 10" 5 "[9 / 10, 9 / 10, 9 / 10, 9 / 10]"]
    adjust_difficulty_spec [of default_policy "1 / 10" 1 "[1 / 10, 1 / 10, 1 / 10, 7 / 10]"]
  by (simp add: default_policy_def adjust_difficulty_def Let_def)

section \<open>Properties of the similarity index and of generation\<close>

lemma normalize_examples:
  "normalize_text ''What is 2+2?'' = ''what is 22?''"
  "normalize_text ''What is 3+3?'' = ''what is 33?''"
  "normalize_text ''Explain photosynthesis in plants.'' = ''explain photosynthesis in plants.''"
  by code_simp+

lemma strip_examples:
  "strip ''What is 2+2?'' = ''What is 2+2?''"
  "strip ''What is 3+3?'' = ''What is 3+3?''"
  by code_simp+

lemma seed_example:
  "seed id (new_filter (88 / 100) 5000) [''What is 2+2?'']
     = \<lparr>max_sim = 88 / 100, max_history = 5000, hashes = {''what is 22?''},
        texts = [''What is 2+2?'']\<rparr>"
  by (simp add: seed_def new_filter_def py_last_n_def add_def text_hash_def
      normalize_examples Let_def)

text \<open>
  What \<open>add\<close> and \<open>seed\<close> keep for every input: the history never grows beyond a
  capacity that is not negative, and every stored fingerprint is the fingerprint of a
  stored text.  The fingerprint set is the whole image of the history as long as the
  stored texts have pairwise different fingerprints.
\<close>

lemma add_fields:
  "max_history (add sha nf q) = max_history nf" "max_sim (add sha nf q) = max_sim nf"
  by (simp_all add: add_def Let_def)

lemma add_length_le:
  assumes "0 \<le> max_history nf" "int (length (texts nf)) \<le> max_history nf"
  shows "int (length (texts (add sha nf q))) \<le> max_history nf"
  using assms by (simp add: add_def Let_def)

lemma fold_add_length_le:
  assumes "0 \<le> max_history nf" "int (length (texts nf)) \<le> max_history nf"
  shows "int (length (texts (fold (\<lambda>q f. add sha f q) qs nf))) \<le> max_history nf \<and>
         max_history (fold (\<lambda>q f. add sha f q) qs nf) = max_history nf"
  using assms
proof (induction qs arbitrary: nf)
  case Nil
  then show ?case by simp
next
  case (Cons q qs)
  have "int (length (texts (add sha nf q))) \<le> max_history (add sha nf q)"
    using add_length_le [OF Cons.prems] by (simp add: add_fields)
  then show ?case using Cons.IH [of "add sha nf q"] Cons.prems(1) by (simp add: add_fields)
qed

lemma seed_length_le:
  assumes "0 \<le> max_history nf" "int (length (texts nf)) \<le> max_history nf"
  shows "int (length (texts (seed sha nf qs))) \<le> max_history nf"
  using fold_add_length_le [OF assms] by (simp add: seed_def)

lemma add_hashes_subset:
  assumes "hashes nf \<subseteq> text_hash sha ` set (texts nf)"
  shows "hashes (add sha nf q) \<subseteq> text_hash sha ` set (texts (add sha nf q))"
proof (cases "texts nf")
  case Nil
  then show ?thesis using assms by (auto simp: add_def Let_def)
next
  case (Cons t ts)
  then show ?thesis using assms by (auto simp: add_def Let_def)
qed

lemma add_image_eq:
  assumes "hashes nf = text_hash sha ` set (texts nf)"
    and "distinct (map (text_hash sha) (texts nf @ [q]))"
  shows "hashes (add sha nf q) = text_hash sha ` set (texts (add sha nf q)) \<and>
         distinct (map (text_hash sha) (texts (add sha nf q)))"
proof (cases "texts nf")
  case Nil
  then show ?thesis using assms by (auto simp: add_def Let_def)
next
  case (Cons t ts)
  then show ?thesis using assms by (auto simp: add_def Let_def) (metis image_eqI)+
qed

text \<open>
  The loop of \<open>generate_novel_question\<close>: when every candidate of the budget is an exact
  duplicate the result is the next answer of the generator, marked as forced, and a
  forced result never changes the filter.
\<close>

lemma regen_loop_all_duplicates:
  assumes "\<forall>j<n. text_hash sha (strip (question (gen (k + j)))) \<in> hashes nf"
  shows "regen_loop sha tfidf_sims gen nf n k linfo =
           Inr ((gen (k + n),
                 \<lparr>forced = True,
                    last_info = (if n = 0 then linfo
                                 else Some \<lparr>hash_dup = True, info_max_sim = 1, sim_to_index = None\<rparr>)\<rparr>),
                nf)"
  using assms
proof (induction n arbitrary: k linfo)
  case 0
  then show ?case by simp
next
  case (Suc n)
  have here: "text_hash sha (strip (question (gen k))) \<in> hashes nf"
    using Suc.prems by (metis add.right_neutral zero_less_Suc)
  have rest: "\<forall>j<n. text_hash sha (strip (question (gen (Suc k + j)))) \<in> hashes nf"
    using Suc.prems by (metis Suc_less_eq add_Suc_shift)
  show ?case
    using here Suc.IH [OF rest, of "Some \<lparr>hash_dup = True, info_max_sim = 1, sim_to_index = None\<rparr>"]
    by (simp add: is_novel_def Let_def)
qed

lemma regen_loop_forced_unchanged:
  "regen_loop sha tfidf_sims gen nf n k linfo = Inr ((q, ni), nf') \<Longrightarrow> forced ni \<Longrightarrow>
   nf' = nf \<and> q = gen (k + n)"
proof (induction n arbitrary: k linfo)
  case 0
  then show ?case by auto
next
  case (Suc n)
  from Suc.prems obtain i where
    "regen_loop sha tfidf_sims gen nf n (Suc k) (Some i) = Inr ((q, ni), nf')"
    by (auto simp: Let_def split: sum.splits prod.splits if_splits)
  from Suc.IH [OF this Suc.prems(2)] show ?case by simp
qed

text \<open>
  Claim C1 on the code.  The history holds \<open>What is 2+2?\<close>; the generator returns that
  question at each of the six attempts and \<open>What is 3+3?\<close> at the final call.  Whatever the
  similarity measure, \<open>generate_novel_question\<close> returns the final candidate with
  \<open>forced\<close> set and leaves the filter as it was: the final candidate's text is not in the
  history, its fingerprint is not in the fingerprint set, and \<open>is_novel\<close> of that text
  afterwards does not report an exact duplicate.  The claim says the final candidate is
  registered.
\<close>

theorem forced_candidate_not_registered:
  "generate_novel_question id tfidf_sims gen_repeating
       (seed id (new_filter (88 / 100) 5000) [''What is 2+2?'']) 6
     = Inr ((q_fresh,
             \<lparr>forced = True,
                last_info = Some \<lparr>hash_dup = True, info_max_sim = 1, sim_to_index = None\<rparr>\<rparr>),
            seed id (new_filter (88 / 100) 5000) [''What is 2+2?'']) \<and>
   strip (question q_fresh) \<notin> set (texts (seed id (new_filter (88 / 100) 5000) [''What is 2+2?''])) \<and>
   text_hash id (strip (question q_fresh))
     \<notin> hashes (seed id (new_filter (88 / 100) 5000) [''What is 2+2?'']) \<and>
   is_novel id tfidf_sims (seed id (new_filter (88 / 100) 5000) [''What is 2+2?''])
       (strip (question q_fresh))
     \<noteq> Inr (False, \<lparr>hash_dup = True, info_max_sim = 1, sim_to_index = None\<rparr>)"
proof -
  let ?nf = "\<lparr>max_sim = 88 / 100, max_history = 5000, hashes = {''what is 22?''},
        texts = [''What is 2+2?'']\<rparr> :: string NoveltyFilter"
  have dups: "\<forall>j<6. text_hash id (strip (question (gen_repeating (0 + j)))) \<in> hashes ?nf"
    by (simp add: gen_repeating_def q_seen_def text_hash_def strip_examples normalize_examples)
  have run: "generate_novel_question id tfidf_sims gen_repeating ?nf 6
     = Inr ((q_fresh,
             \<lparr>forced = True,
                last_info = Some \<lparr>hash_dup = True, info_max_sim = 1, sim_to_index = None\<rparr>\<rparr>), ?nf)"
  proof -
    have g: "gen_repeating (0 + 6) = q_fresh" by (simp add: gen_repeating_def)
    show ?thesis
      unfolding generate_novel_question_def
      using regen_loop_all_duplicates [OF dups, of tfidf_sims None]
      unfolding g by (simp del: id_apply)
  qed
  have fresh: "text_hash id (strip (question q_fresh)) \<notin> hashes ?nf"
    "strip (question q_fresh) \<notin> set (texts ?nf)"
    by (simp_all add: q_fresh_def text_hash_def strip_examples normalize_examples)
  have "is_novel id tfidf_sims ?nf (strip (question q_fresh))
     \<noteq> Inr (False, \<lparr>hash_dup = True, info_max_sim = 1, sim_to_index = None\<rparr>)"
    using fresh(1) by (simp add: is_novel_def Let_def split: sum.splits)
  then show ?thesis using run fresh by (simp only: seed_example) simp
qed

text \<open>
  Claim C2 on the code.  A filter of capacity two is seeded with a history that holds
  \<open>What is 2+2?\<close> twice, then \<open>Explain photosynthesis in plants.\<close> is added.  The
  insertion evicts the older copy and discards the fingerprint the two copies share, so
  the history still holds \<open>What is 2+2?\<close> while the fingerprint set lacks its fingerprint:
  the set is not the image of the history, as the claim says it always is.
\<close>

theorem eviction_drops_fingerprint_of_duplicate:
  "texts duplicate_history = [''What is 2+2?'', ''Explain photosynthesis in plants.''] \<and>
   hashes duplicate_history = {text_hash id ''Explain photosynthesis in plants.''} \<and>
   text_hash id ''What is 2+2?'' \<in> text_hash id ` set (texts duplicate_history) \<and>
   text_hash id ''What is 2+2?'' \<notin> hashes duplicate_history \<and>
   hashes duplicate_history \<noteq> text_hash id ` set (texts duplicate_history)"
proof -
  have t: "texts duplicate_history = [''What is 2+2?'', ''Explain photosynthesis in plants.'']"
    by (simp add: duplicate_history_def seed_def new_filter_def py_last_n_def add_def Let_def)
  have h: "hashes duplicate_history = {text_hash id ''Explain photosynthesis in plants.''}"
    by (simp add: duplicate_history_def seed_def new_filter_def py_last_n_def add_def
        text_hash_def normalize_examples Let_def insert_Diff_if)
  have n: "text_hash id ''What is 2+2?'' \<notin> hashes duplicate_history"
    unfolding h by (simp add: text_hash_def normalize_examples)
  have i: "text_hash id ''What is 2+2?'' \<in> text_hash id ` set (texts duplicate_history)"
    unfolding t by simp
  from n i have "hashes duplicate_history \<noteq> text_hash id ` set (texts duplicate_history)"
    by blast
  then show ?thesis using t h n i by blast
qed

text \<open>
  Claim C8, amended.  For every text \<open>t\<close> and every state of the filter in which the
  history is shorter than the capacity, or is not empty and its oldest entry has a
  fingerprint other than that of \<open>t\<close>, \<open>is_novel t\<close> immediately after \<open>add t\<close> rejects
  with \<open>hash_dup\<close> true and similarity \<open>1.0\<close>, whatever the similarity measure.
\<close>

theorem is_novel_after_add:
  assumes "int (length (texts nf)) < max_history nf \<or>
           (texts nf \<noteq> [] \<and> text_hash sha (hd (texts nf)) \<noteq> text_hash sha t)"
  shows "is_novel sha tfidf_sims (add sha nf t) t
           = Inr (False, \<lparr>hash_dup = True, info_max_sim = 1, sim_to_index = None\<rparr>)"
proof -
  have "text_hash sha t \<in> hashes (add sha nf t)"
    using assms by (auto simp: add_def Let_def)
  then show ?thesis by (simp add: is_novel_def)
qed

theorem is_novel_after_add_witness:
  "int (length (texts (new_filter (95 / 100) 5000 :: string NoveltyFilter)))
     < max_history (new_filter (95 / 100) 5000 :: string NoveltyFilter) \<and>
   is_novel id same_text_sims (add id (new_filter (95 / 100) 5000) ''What is 2+2?'') ''What is 2+2?''
     = Inr (False, \<lparr>hash_dup = True, info_max_sim = 1, sim_to_index = None\<rparr>)"
  using is_novel_after_add [of "new_filter (95 / 100) 5000" id "''What is 2+2?''" same_text_sims]
  by (simp add: new_filter_def)

text \<open>
  Claim C8 as stated, for every state of the filter.  It fails for a filter of capacity
  zero, where \<open>add\<close> evicts the text it has just appended and \<open>is_novel\<close> then accepts it;
  and for a full filter of capacity one that already holds the text, where \<open>add\<close> evicts
  the older copy and discards the fingerprint both copies share, so that \<open>is_novel\<close>
  rejects by similarity and not as an exact duplicate.
\<close>

theorem add_then_is_novel_counterexample:
  "is_novel id same_text_sims (add id (new_filter (88 / 100) 0) ''What is 2+2?'') ''What is 2+2?''
     = Inr (True, \<lparr>hash_dup = False, info_max_sim = 0, sim_to_index = None\<rparr>) \<and>
   is_novel id same_text_sims
       (add id (add id (new_filter (88 / 100) 1) ''What is 2+2?'') ''What is 2+2?'') ''What is 2+2?''
     = Inr (False, \<lparr>hash_dup = False, info_max_sim = 1, sim_to_index = Some 0\<rparr>)"
  by (simp add: is_novel_def add_def new_filter_def text_hash_def same_text_sims_def
      np_max_def np_argmax_def Let_def)


section \<open>Properties of the grading normalisation\<close>

lemma clamp_unit: "\<exists>r. clamp fos x = Fin r \<and> 0 \<le> r \<and> r \<le> 1"
proof (cases "py_float fos x")
  case (Inl e)
  then show ?thesis by (simp add: clamp_def)
next
  case (Inr f)
  then show ?thesis
    by (cases f) (auto simp: clamp_def py_min_def py_max_def)
qed

lemma unit_float_clamp: "unit_float (Some (JFloat (clamp fos x)))"
  using clamp_unit [of fos x] by (auto simp: unit_float_def)

lemma map_of_dict_set:
  "map_of (dict_set k v d) k' = (if k' = k then Some v else map_of d k')"
  by (induction k v d rule: dict_set.induct) auto

lemma map_of_setdefault:
  "map_of (setdefault k v d) k' =
     (case map_of d k' of Some x \<Rightarrow> Some x | None \<Rightarrow> if k' = k then Some v else None)"
  by (auto simp: setdefault_def map_add_def split: option.splits)

lemma map_of_fold_setdefault:
  "k' \<in> set ks \<or> map_of d k' \<noteq> None \<Longrightarrow>
   map_of (fold (\<lambda>k. setdefault k (g k)) ks d) k' \<noteq> None"
proof (induction ks arbitrary: d)
  case Nil
  then show ?case by simp
next
  case (Cons k ks)
  have "k' \<in> set ks \<or> map_of (setdefault k (g k) d) k' \<noteq> None"
    using Cons.prems by (auto simp: map_of_setdefault split: option.splits)
  then show ?case using Cons.IH by simp
qed

lemma map_of_map_values:
  "map_of (map (\<lambda>kv. (fst kv, f (snd kv))) d) k = map_option f (map_of d k)"
  by (induction d) auto

text \<open>
  Whenever \<open>evaluate\<close> returns, the record is well formed: the score and the five
  subscore dimensions are floats in \<open>[0, 1]\<close> and \<open>error_tags\<close> is a list.
\<close>

lemma evaluate_well_formed:
  assumes "evaluate loads fos txt = Inr obj"
  shows "well_formed_record obj"
proof -
  define top where "top = (case safe_json_extract loads txt of
              None \<Rightarrow> JObj []
            | Some v \<Rightarrow> if truthy v then v else JObj [])"
  from assms obtain obj0 where top: "top = JObj obj0"
    unfolding evaluate_def top_def [symmetric] by (cases top) simp_all
  define obj2 where "obj2 = setdefault ''subscores'' (JObj []) (setdefault ''score'' (JFloat (Fin 0)) obj0)"
  from assms top obtain subs0 where subs0: "map_of obj2 ''subscores'' = Some (JObj subs0)"
    unfolding evaluate_def top_def [symmetric] obj2_def
    by (auto simp: Let_def split: option.splits json.splits)
  define subs1 where "subs1 = fold (\<lambda>k. setdefault k
                                  (JFloat (Fin (if k \<noteq> ''safety'' then 0 else 1))))
                                subscore_keys subs0"
  define subs2 where "subs2 = map (\<lambda>kv. (fst kv, JFloat (clamp fos (snd kv)))) subs1"
  define obj5 where "obj5 = setdefault ''feedback'' (JStr [])
        (setdefault ''error_tags'' (JList []) (dict_set ''subscores'' (JObj subs1) obj2))"
  define obj7 where "obj7 = dict_set ''subscores'' (JObj subs2) (dict_set ''score''
                                (JFloat (clamp fos
                                   (case map_of obj5 ''score'' of
                                      None \<Rightarrow> JFloat (Fin 0) | Some v \<Rightarrow> v))) obj5)"
  have obj: "obj = (case map_of obj7 ''error_tags'' of
                                 Some (JList tags) \<Rightarrow> obj7
                               | _ \<Rightarrow> dict_set ''error_tags'' (JList []) obj7)"
    using assms top subs0
    unfolding evaluate_def top_def [symmetric] obj7_def obj5_def subs2_def subs1_def obj2_def
    by (simp add: Let_def)
  have score7: "unit_float (map_of obj7 ''score'')"
    by (simp add: obj7_def map_of_dict_set unit_float_clamp)
  have subs7: "map_of obj7 ''subscores'' = Some (JObj subs2)"
    by (simp add: obj7_def map_of_dict_set)
  have each: "unit_float (map_of subs2 k)" if "k \<in> set subscore_keys" for k
  proof -
    have "map_of subs1 k \<noteq> None"
      unfolding subs1_def using that by (intro map_of_fold_setdefault) simp
    then obtain v where "map_of subs1 k = Some v" by blast
    then show ?thesis
      using map_of_map_values [of "\<lambda>x. JFloat (clamp fos x)" subs1 k]
      by (simp add: subs2_def unit_float_clamp)
  qed
  then have all: "list_all (\<lambda>k. unit_float (map_of subs2 k)) subscore_keys"
    by (simp add: list_all_iff)
  show ?thesis
  proof (cases "\<exists>tags. map_of obj7 ''error_tags'' = Some (JList tags)")
    case True
    then have "obj = obj7" using obj by auto
    then show ?thesis using True score7 subs7 all by (auto simp: well_formed_record_def)
  next
    case False
    then have "obj = dict_set ''error_tags'' (JList []) obj7"
      using obj by (auto split: option.splits json.splits)
    then show ?thesis using score7 subs7 all
      by (simp add: well_formed_record_def map_of_dict_set)
  qed
qed

text \<open>
  \<open>evaluate\<close> raises exactly when the extracted value is a true value that is not a
  dictionary, or is a dictionary whose \<open>subscores\<close> entry is not a dictionary.
\<close>

lemma evaluate_raises_iff:
  "evaluate loads fos txt = Inl e \<longleftrightarrow>
     e = AttributeError \<and>
     (case safe_json_extract loads txt of
        None \<Rightarrow> False
      | Some (JObj obj0) \<Rightarrow>
          (case map_of obj0 ''subscores'' of
             None \<Rightarrow> False | Some (JObj subs) \<Rightarrow> False | Some other \<Rightarrow> True)
      | Some v \<Rightarrow> truthy v)"
  by (auto simp: evaluate_def Let_def map_of_setdefault split: option.splits json.splits)

text \<open>
  A reply from which no object can be extracted, or an empty object, is normalised to
  the defaults: score \<open>0.0\<close>, safety \<open>1.0\<close>, every other subscore \<open>0.0\<close>, no error tags.
\<close>

lemma evaluate_defaults:
  assumes "safe_json_extract loads txt = None \<or> safe_json_extract loads txt = Some (JObj [])"
  shows "evaluate loads fos txt =
           Inr [(''score'', JFloat (Fin 0)),
                (''subscores'', JObj [(''correctness'', JFloat (Fin 0)),
                                      (''completeness'', JFloat (Fin 0)),
                                      (''reasoning_quality'', JFloat (Fin 0)),
                                      (''format_compliance'', JFloat (Fin 0)),
                                      (''safety'', JFloat (Fin 1))]),
                (''error_tags'', JList []),
                (''feedback'', JStr [])]"
  using assms
  by (auto simp: evaluate_def Let_def setdefault_def subscore_keys_def clamp_def py_float_def
      py_min_def py_max_def)

text \<open>
  Claim C6 on the code.  For the reply \<^verbatim>\<open>{"score": 0.9, "subscores": null}\<close> the call
  \<^verbatim>\<open>obj["subscores"].setdefault\<close> raises \<open>AttributeError\<close>, and so does \<^verbatim>\<open>obj.setdefault\<close>
  for the reply \<^verbatim>\<open>[1]\<close>: \<open>evaluate\<close> produces no record, where the claim says every reply
  is normalised to a record with a score and the five subscores in \<open>[0, 1]\<close>.
\<close>

theorem evaluate_null_subscores_raises:
  "evaluate (\<lambda>s. Some (JObj [(''score'', JFloat (Fin (9 / 10))), (''subscores'', JNull)]))
     float_of_str reply = Inl AttributeError \<and>
   evaluate (\<lambda>s. Some (JList [JInt 1])) float_of_str reply = Inl AttributeError"
  by (simp add: evaluate_def safe_json_extract_def Let_def setdefault_def)

end
